theory Spec2Isabelle
  imports Main
begin

section \<open>The syntax trees handed to the analyzer\<close>

text \<open>
  The analyzer of \<^verbatim>\<open>main.py\<close> walks the tree that Python's \<^verbatim>\<open>ast.parse\<close> returns.
  A node is modelled by its class and the fields the walk reads, in the field order of
  the \<^verbatim>\<open>ast\<close> module. Numeric literals keep only what the analyzer inspects: whether the
  value is an \<^verbatim>\<open>int\<close>; the text of any other number is carried along unread.
\<close>

datatype number = IntNum int | FloatNum string | ComplexNum string

datatype operator =
  Add | Sub | Mult | MatMult | Div | Mod | Pow | LShift | RShift | BitOr | BitXor | BitAnd | FloorDiv

text \<open>
  \<^item> \<open>FunctionDef name args defaults body decorator_list returns\<close>, where \<open>args\<close> lists
    \<^verbatim>\<open>node.args.args\<close> as pairs of \<^verbatim>\<open>arg.arg\<close> and \<^verbatim>\<open>arg.annotation\<close>, and \<open>defaults\<close> is
    \<^verbatim>\<open>node.args.defaults\<close> (functions with positional-only, keyword-only or starred
    parameters are outside the modelled trees);
  \<^item> \<open>ClassDef name bases kws body decorator_list\<close> (\<open>kws\<close> holds the keyword nodes);
  \<^item> \<open>Assign targets value\<close>, \<open>Call func args kws\<close>, \<open>BinOp left op right\<close>;
  \<^item> \<open>Other cls children\<close> is a node of any class the analyzer has no method for, with
    its child nodes in field order.
\<close>

datatype node =
    Module "node list"
  | Expr node
  | Return "node option"
  | FunctionDef string "(string \<times> node option) list" "node list" "node list" "node list" "node option"
  | ClassDef string "node list" "node list" "node list" "node list"
  | Assign "node list" node
  | Call node "node list" "node list"
  | BinOp node operator node
  | Name string
  | Num number
  | Str string
  | Attribute node string
  | Other string "node list"

section \<open>Symbols, the symbol table and exceptions\<close>

text \<open>
  The \<^verbatim>\<open>type\<close> of a \<^verbatim>\<open>VarSymbol\<close> is one of the Python classes \<^verbatim>\<open>int\<close>, \<^verbatim>\<open>float\<close>, \<^verbatim>\<open>str\<close>
  (stored by \<^verbatim>\<open>visit_Assign\<close>) or one of the strings \<^verbatim>\<open>'function'\<close>, \<^verbatim>\<open>'class'\<close>,
  \<^verbatim>\<open>'variable'\<close> (stored by the declaration methods).
\<close>

datatype vtype = T_int | T_float | T_str | S_function | S_class | S_variable

record VarSymbol =
  name :: string
  type :: vtype

type_synonym scope = "string \<rightharpoonup> VarSymbol"

type_synonym symbol_table = "scope list"

datatype message =
    UndefinedVariable string
  | UndefinedFunction string
  | UnsupportedTarget
  | TypeMismatch vtype vtype
  | UnknownNode

datatype error = ValueError message | TypeError message | IndexError

text \<open>
  A visiting method returns nothing and may raise; what it wrote to the table before
  raising stays written. Its outcome is the exception, if any, and the table it leaves.
\<close>

type_synonym outcome = "error option \<times> symbol_table"

definition and_then :: "outcome \<Rightarrow> (symbol_table \<Rightarrow> outcome) \<Rightarrow> outcome" where
  "and_then r k = (case r of (None, st) \<Rightarrow> k st | (Some e, st) \<Rightarrow> (Some e, st))"

text \<open>\<^verbatim>\<open>self.symbol_table[-1][key] = VarSymbol(key, t)\<close>; the index fails on an empty list.\<close>

definition bind_symbol :: "string \<Rightarrow> vtype \<Rightarrow> symbol_table \<Rightarrow> error + symbol_table" where
  "bind_symbol key t st =
     (if st = [] then Inl IndexError
      else Inr (butlast st @ [(last st)(key \<mapsto> \<lparr>name = key, type = t\<rparr>)]))"

section \<open>The analyzer\<close>

fun get_value_type :: "symbol_table \<Rightarrow> node \<Rightarrow> error + vtype" where
  "get_value_type st (Name x) =
     (if st = [] then Inl IndexError
      else case last st x of
             Some symbol \<Rightarrow> Inr (type symbol)
           | None \<Rightarrow> Inl (ValueError (UndefinedVariable x)))"
| "get_value_type st (BinOp left op right) =
     (case get_value_type st left of
        Inl e \<Rightarrow> Inl e
      | Inr left_type \<Rightarrow>
          (case get_value_type st right of
             Inl e \<Rightarrow> Inl e
           | Inr right_type \<Rightarrow>
               if left_type = right_type
                  \<or> (left_type, right_type) \<in> set [(T_int, T_float), (T_float, T_int)]
               then Inr T_float
               else Inl (ValueError (TypeMismatch left_type right_type))))"
| "get_value_type st (Num n) = Inr (case n of IntNum i \<Rightarrow> T_int | _ \<Rightarrow> T_float)"
| "get_value_type st (Str s) = Inr T_str"
| "get_value_type st _ = Inl (TypeError UnknownNode)"

definition visit_Name :: "string \<Rightarrow> symbol_table \<Rightarrow> outcome" where
  "visit_Name variable_name st =
     (if list_ex (\<lambda>scope. scope variable_name \<noteq> None) st then (None, st)
      else (Some (ValueError (UndefinedVariable variable_name)), st))"

fun visit_Assign :: "node list \<Rightarrow> node \<Rightarrow> symbol_table \<Rightarrow> outcome" where
  "visit_Assign [] v st = (None, st)"
| "visit_Assign (Name variable_name # targets) v st =
     (case get_value_type st v of
        Inl e \<Rightarrow> (Some e, st)
      | Inr value_type \<Rightarrow>
          (case bind_symbol variable_name value_type st of
             Inl e \<Rightarrow> (Some e, st)
           | Inr st' \<Rightarrow> visit_Assign targets v st'))"
| "visit_Assign (target # targets) v st = (Some (ValueError UnsupportedTarget), st)"

fun bind_args :: "(string \<times> node option) list \<Rightarrow> symbol_table \<Rightarrow> error + symbol_table" where
  "bind_args [] st = Inr st"
| "bind_args ((a, ann) # args) st =
     (case bind_symbol a S_variable st of Inl e \<Rightarrow> Inl e | Inr st' \<Rightarrow> bind_args args st')"

text \<open>
  The walk of \<^verbatim>\<open>ast.NodeVisitor\<close>: \<open>visit\<close> calls the method named after the class of the
  node when the analyzer defines one, and \<open>generic_visit\<close> otherwise, which visits the
  child nodes in field order. The parameter \<open>bi\<close> is the list \<^verbatim>\<open>dir(__builtins__)\<close> of the
  interpreter that runs the analyzer.
\<close>

definition binop_pairs :: "(vtype \<times> vtype) list" where
  "binop_pairs =
     [(T_int, T_float), (T_float, T_int), (T_int, T_int), (T_float, T_float), (T_str, T_str)]"

function (sequential) visit :: "string list \<Rightarrow> node \<Rightarrow> symbol_table \<Rightarrow> outcome"
  and generic_visit :: "string list \<Rightarrow> node \<Rightarrow> symbol_table \<Rightarrow> outcome"
  and visit_each :: "string list \<Rightarrow> node list \<Rightarrow> symbol_table \<Rightarrow> outcome"
  and visit_field :: "string list \<Rightarrow> node option \<Rightarrow> symbol_table \<Rightarrow> outcome"
  and visit_arg_nodes :: "string list \<Rightarrow> (string \<times> node option) list \<Rightarrow> symbol_table \<Rightarrow> outcome"
where
  "visit bi (Name x) st = visit_Name x st"
| "visit bi (FunctionDef f args defaults body decos returns) st =
     (case bind_symbol f S_function st of
        Inl e \<Rightarrow> (Some e, st)
      | Inr st1 \<Rightarrow>
          (case bind_args args st1 of
             Inl e \<Rightarrow> (Some e, st1)
           | Inr st2 \<Rightarrow> generic_visit bi (FunctionDef f args defaults body decos returns) st2))"
| "visit bi (ClassDef c bases kws body decos) st =
     (case bind_symbol c S_class st of
        Inl e \<Rightarrow> (Some e, st)
      | Inr st1 \<Rightarrow> generic_visit bi (ClassDef c bases kws body decos) st1)"
| "visit bi (Assign targets v) st = visit_Assign targets v st"
| "visit bi (Call func args kws) st =
     (case func of
        Name func_name \<Rightarrow>
          if func_name \<in> set bi then visit_each bi args st
          else (Some (ValueError (UndefinedFunction func_name)), st)
      | _ \<Rightarrow> visit_each bi args st)"
| "visit bi (BinOp left op right) st =
     and_then (visit bi left st) (\<lambda>st1.
     and_then (visit bi right st1) (\<lambda>st2.
       case get_value_type st2 left of
         Inl e \<Rightarrow> (Some e, st2)
       | Inr left_type \<Rightarrow>
           (case get_value_type st2 right of
              Inl e \<Rightarrow> (Some e, st2)
            | Inr right_type \<Rightarrow>
                if (left_type, right_type) \<in> set binop_pairs then (None, st2)
                else (Some (ValueError (TypeMismatch left_type right_type)), st2))))"
| "visit bi (Module body) st = generic_visit bi (Module body) st"
| "visit bi (Expr v) st = generic_visit bi (Expr v) st"
| "visit bi (Return v) st = generic_visit bi (Return v) st"
| "visit bi (Num n) st = generic_visit bi (Num n) st"
| "visit bi (Str s) st = generic_visit bi (Str s) st"
| "visit bi (Attribute v a) st = generic_visit bi (Attribute v a) st"
| "visit bi (Other c children) st = generic_visit bi (Other c children) st"
| "generic_visit bi (Module body) st = visit_each bi body st"
| "generic_visit bi (Expr v) st = visit bi v st"
| "generic_visit bi (Return v) st = visit_field bi v st"
| "generic_visit bi (FunctionDef f args defaults body decos returns) st =
     and_then (visit_arg_nodes bi args st) (\<lambda>st1.
     and_then (visit_each bi defaults st1) (\<lambda>st2.
     and_then (visit_each bi body st2) (\<lambda>st3.
     and_then (visit_each bi decos st3) (\<lambda>st4.
       visit_field bi returns st4))))"
| "generic_visit bi (ClassDef c bases kws body decos) st =
     and_then (visit_each bi bases st) (\<lambda>st1.
     and_then (visit_each bi kws st1) (\<lambda>st2.
     and_then (visit_each bi body st2) (\<lambda>st3.
       visit_each bi decos st3)))"
| "generic_visit bi (Assign targets v) st =
     and_then (visit_each bi targets st) (\<lambda>st1. visit bi v st1)"
| "generic_visit bi (Call func args kws) st =
     and_then (visit bi func st) (\<lambda>st1.
     and_then (visit_each bi args st1) (\<lambda>st2.
       visit_each bi kws st2))"
| "generic_visit bi (BinOp left op right) st =
     and_then (visit bi left st) (\<lambda>st1. visit bi right st1)"
| "generic_visit bi (Name x) st = (None, st)"
| "generic_visit bi (Num n) st = (None, st)"
| "generic_visit bi (Str s) st = (None, st)"
| "generic_visit bi (Attribute v a) st = visit bi v st"
| "generic_visit bi (Other c children) st = visit_each bi children st"
| "visit_each bi [] st = (None, st)"
| "visit_each bi (item # items) st =
     and_then (visit bi item st) (\<lambda>st1. visit_each bi items st1)"
| "visit_field bi None st = (None, st)"
| "visit_field bi (Some v) st = visit bi v st"
| "visit_arg_nodes bi [] st = (None, st)"
| "visit_arg_nodes bi ((a, ann) # args) st =
     and_then (visit_field bi ann st) (\<lambda>st1. visit_arg_nodes bi args st1)"

  by pat_completeness auto

termination
  by (relation "measure (\<lambda>x. case x of
         Inl (Inl (bi, n, st)) \<Rightarrow> 2 * size n + 1
       | Inl (Inr (bi, n, st)) \<Rightarrow> 2 * size n
       | Inr (Inl (bi, ns, st)) \<Rightarrow> 2 * size_list size ns
       | Inr (Inr (Inl (bi, v, st))) \<Rightarrow> 2 * size_option size v
       | Inr (Inr (Inr (bi, args, st))) \<Rightarrow> 2 * size_list (size_prod (\<lambda>a. 0) (size_option size)) args)")
     auto

datatype verdict = Approved | Failed error

definition analyze_semantics :: "string list \<Rightarrow> node \<Rightarrow> verdict" where
  "analyze_semantics bi tree =
     (case visit bi tree [Map.empty] of
        (None, st) \<Rightarrow> Approved
      | (Some e, st) \<Rightarrow> Failed e)"

section \<open>Notions used to state the properties\<close>

text \<open>\<^verbatim>\<open>isinstance(node, ast.Name)\<close>.\<close>

fun is_Name :: "node \<Rightarrow> bool" where
  "is_Name (Name x) = True"
| "is_Name _ = False"

text \<open>
  The table \<open>st'\<close> has the scopes of \<open>st\<close>, all but the last one untouched, and the last
  scope binds at least the names it bound before.
\<close>

definition grows :: "symbol_table \<Rightarrow> symbol_table \<Rightarrow> bool" where
  "grows st st' \<longleftrightarrow>
     length st' = length st \<and> butlast st' = butlast st \<and> dom (last st) \<subseteq> dom (last st')"

text \<open>The nodes of an optional field, and the annotations of the parameters in order.\<close>

fun field_nodes :: "node option \<Rightarrow> node list" where
  "field_nodes None = []"
| "field_nodes (Some v) = [v]"

fun arg_annotations :: "(string \<times> node option) list \<Rightarrow> node list" where
  "arg_annotations [] = []"
| "arg_annotations ((a, ann) # args) = field_nodes ann @ arg_annotations args"

text \<open>
  The walk comes to a lookup of the name \<open>x\<close> that fails, before anything else raises.
  \<open>undefined_in_value x v st\<close> follows \<open>get_value_type\<close> into the value \<open>v\<close>, where a name
  is read in the last scope. \<open>undefined_lookup bi x n st\<close> follows \<open>visit\<close> into the node \<open>n\<close>
  from the table \<open>st\<close>, where a name use is looked up in every scope; the nodes walked
  before the lookup have been visited without error.
\<close>

inductive undefined_in_value :: "string \<Rightarrow> node \<Rightarrow> symbol_table \<Rightarrow> bool" where
  value_Name:
    "st \<noteq> [] \<Longrightarrow> last st x = None \<Longrightarrow> undefined_in_value x (Name x) st"
| value_left:
    "undefined_in_value x left st \<Longrightarrow> undefined_in_value x (BinOp left op right) st"
| value_right:
    "get_value_type st left = Inr t \<Longrightarrow> undefined_in_value x right st \<Longrightarrow>
     undefined_in_value x (BinOp left op right) st"

inductive undefined_lookup :: "string list \<Rightarrow> string \<Rightarrow> node \<Rightarrow> symbol_table \<Rightarrow> bool"
  and undefined_lookup_each :: "string list \<Rightarrow> string \<Rightarrow> node list \<Rightarrow> symbol_table \<Rightarrow> bool"
where
  at_Name:
    "\<not> list_ex (\<lambda>scope. scope x \<noteq> None) st \<Longrightarrow> undefined_lookup bi x (Name x) st"
| in_Expr:
    "undefined_lookup bi x v st \<Longrightarrow> undefined_lookup bi x (Expr v) st"
| in_Return:
    "undefined_lookup bi x v st \<Longrightarrow> undefined_lookup bi x (Return (Some v)) st"
| in_Attribute:
    "undefined_lookup bi x v st \<Longrightarrow> undefined_lookup bi x (Attribute v a) st"
| in_Module:
    "undefined_lookup_each bi x body st \<Longrightarrow> undefined_lookup bi x (Module body) st"
| in_Other:
    "undefined_lookup_each bi x children st \<Longrightarrow> undefined_lookup bi x (Other c children) st"
| in_Call_builtin:
    "func_name \<in> set bi \<Longrightarrow> undefined_lookup_each bi x args st \<Longrightarrow>
     undefined_lookup bi x (Call (Name func_name) args kws) st"
| in_Call_other:
    "\<not> is_Name func \<Longrightarrow> undefined_lookup_each bi x args st \<Longrightarrow>
     undefined_lookup bi x (Call func args kws) st"
| in_BinOp_operand:
    "undefined_lookup_each bi x [left, right] st \<Longrightarrow>
     undefined_lookup bi x (BinOp left op right) st"
| in_BinOp_types:
    "visit_each bi [left, right] st = (None, st2) \<Longrightarrow>
     undefined_in_value x (BinOp left op right) st2 \<Longrightarrow>
     undefined_lookup bi x (BinOp left op right) st"
| in_Assign_value:
    "undefined_in_value x v st \<Longrightarrow> undefined_lookup bi x (Assign (Name y # targets) v) st"
| in_Assign_next:
    "get_value_type st v = Inr t \<Longrightarrow> bind_symbol y t st = Inr st1 \<Longrightarrow>
     undefined_lookup bi x (Assign targets v) st1 \<Longrightarrow>
     undefined_lookup bi x (Assign (Name y # targets) v) st"
| in_FunctionDef:
    "bind_symbol f S_function st = Inr st1 \<Longrightarrow> bind_args args st1 = Inr st2 \<Longrightarrow>
     undefined_lookup_each bi x
       (arg_annotations args @ defaults @ body @ decos @ field_nodes returns) st2 \<Longrightarrow>
     undefined_lookup bi x (FunctionDef f args defaults body decos returns) st"
| in_ClassDef:
    "bind_symbol c S_class st = Inr st1 \<Longrightarrow>
     undefined_lookup_each bi x (bases @ kws @ body @ decos) st1 \<Longrightarrow>
     undefined_lookup bi x (ClassDef c bases kws body decos) st"
| at_first:
    "undefined_lookup bi x n st \<Longrightarrow> undefined_lookup_each bi x (n # ns) st"
| at_later:
    "visit bi n st = (None, st1) \<Longrightarrow> undefined_lookup_each bi x ns st1 \<Longrightarrow>
     undefined_lookup_each bi x (n # ns) st"

text \<open>
  A checker over type environments, for programs analysed from the single empty scope.
  An environment gives the type recorded for each name bound so far. \<open>static_type\<close> is
  the type inferred for a value, and \<open>check\<close> returns the environment after a node that
  passes: every name use visited is bound, every callee that is a plain name is built in,
  the operand types of every binary operation are one of \<open>binop_pairs\<close>, and every
  assignment has plain-name targets and a value with a type.
\<close>

type_synonym env = "string \<rightharpoonup> vtype"

fun static_type :: "env \<Rightarrow> node \<Rightarrow> vtype option" where
  "static_type \<Gamma> (Name x) = \<Gamma> x"
| "static_type \<Gamma> (BinOp left op right) =
     (case (static_type \<Gamma> left, static_type \<Gamma> right) of
        (Some a, Some b) \<Rightarrow>
          if a = b \<or> (a, b) \<in> {(T_int, T_float), (T_float, T_int)} then Some T_float else None
      | _ \<Rightarrow> None)"
| "static_type \<Gamma> (Num n) = Some (case n of IntNum i \<Rightarrow> T_int | _ \<Rightarrow> T_float)"
| "static_type \<Gamma> (Str s) = Some T_str"
| "static_type \<Gamma> _ = None"

fun param_env :: "env \<Rightarrow> (string \<times> node option) list \<Rightarrow> env" where
  "param_env \<Gamma> [] = \<Gamma>"
| "param_env \<Gamma> ((a, ann) # args) = param_env (\<Gamma>(a \<mapsto> S_variable)) args"

fun check_Assign :: "env \<Rightarrow> node list \<Rightarrow> node \<Rightarrow> env option" where
  "check_Assign \<Gamma> [] v = Some \<Gamma>"
| "check_Assign \<Gamma> (Name x # targets) v =
     (case static_type \<Gamma> v of
        Some t \<Rightarrow> check_Assign (\<Gamma>(x \<mapsto> t)) targets v
      | None \<Rightarrow> None)"
| "check_Assign \<Gamma> (target # targets) v = None"

function (sequential) check :: "string list \<Rightarrow> env \<Rightarrow> node \<Rightarrow> env option"
  and check_each :: "string list \<Rightarrow> env \<Rightarrow> node list \<Rightarrow> env option"
where
  "check bi \<Gamma> (Name x) = (if x \<in> dom \<Gamma> then Some \<Gamma> else None)"
| "check bi \<Gamma> (Num n) = Some \<Gamma>"
| "check bi \<Gamma> (Str s) = Some \<Gamma>"
| "check bi \<Gamma> (Attribute v a) = check bi \<Gamma> v"
| "check bi \<Gamma> (Expr v) = check bi \<Gamma> v"
| "check bi \<Gamma> (Return v) = check_each bi \<Gamma> (field_nodes v)"
| "check bi \<Gamma> (Module body) = check_each bi \<Gamma> body"
| "check bi \<Gamma> (Other c children) = check_each bi \<Gamma> children"
| "check bi \<Gamma> (Call func args kws) =
     (if (case func of Name func_name \<Rightarrow> func_name \<in> set bi | _ \<Rightarrow> True)
      then check_each bi \<Gamma> args else None)"
| "check bi \<Gamma> (BinOp left op right) =
     (case check bi \<Gamma> left of
        None \<Rightarrow> None
      | Some \<Gamma>1 \<Rightarrow>
          (case check bi \<Gamma>1 right of
             None \<Rightarrow> None
           | Some \<Gamma>2 \<Rightarrow>
               (case (static_type \<Gamma>2 left, static_type \<Gamma>2 right) of
                  (Some a, Some b) \<Rightarrow> if (a, b) \<in> set binop_pairs then Some \<Gamma>2 else None
                | _ \<Rightarrow> None)))"
| "check bi \<Gamma> (Assign targets v) = check_Assign \<Gamma> targets v"
| "check bi \<Gamma> (FunctionDef f args defaults body decos returns) =
     check_each bi (param_env (\<Gamma>(f \<mapsto> S_function)) args)
       (arg_annotations args @ defaults @ body @ decos @ field_nodes returns)"
| "check bi \<Gamma> (ClassDef c bases kws body decos) =
     check_each bi (\<Gamma>(c \<mapsto> S_class)) (bases @ kws @ body @ decos)"
| "check_each bi \<Gamma> [] = Some \<Gamma>"
| "check_each bi \<Gamma> (n # ns) =
     (case check bi \<Gamma> n of None \<Rightarrow> None | Some \<Gamma>1 \<Rightarrow> check_each bi \<Gamma>1 ns)"
  by pat_completeness auto

termination
proof -
  have field: "size_option size v = size_list size (field_nodes v) + (if v = None then 1 else 0)"
    for v :: "node option"
    by (cases v) simp_all
  have params: "size_list (size_prod (\<lambda>x. 0)
        (\<lambda>v. size_list size (field_nodes v) + (if v = None then 1 else 0))) args =
      size_list size (arg_annotations args) + size_list (\<lambda>p. if snd p = None then 2 else 1) args"
    for args :: "(string \<times> node option) list"
    by (induction args) auto
  show ?thesis
    by (relation "measure (\<lambda>x. case x of Inl (bi, \<Gamma>, n) \<Rightarrow> size n
                                | Inr (bi, \<Gamma>, ns) \<Rightarrow> size_list size ns)")
       (auto simp: field params)
qed

text \<open>The scope that records an environment, and the programs the checker passes.\<close>

definition scope_of :: "env \<Rightarrow> scope" where
  "scope_of \<Gamma> = (\<lambda>x. map_option (\<lambda>t. \<lparr>name = x, type = t\<rparr>) (\<Gamma> x))"

definition accepted :: "string list \<Rightarrow> node \<Rightarrow> bool" where
  "accepted bi tree \<longleftrightarrow> check bi Map.empty tree \<noteq> None"

section \<open>Basic facts\<close>

lemma and_then_simps [simp]:
  "and_then (None, st) k = k st"
  "and_then (Some e, st) k = (Some e, st)"
  by (simp_all add: and_then_def)

lemma grows_refl [simp]: "grows st st"
  by (simp add: grows_def)

lemma grows_trans: "grows st st1 \<Longrightarrow> grows st1 st2 \<Longrightarrow> grows st st2"
  by (auto simp: grows_def)

lemma bind_symbol_Inr:
  "bind_symbol key t st = Inr st' \<longleftrightarrow>
     st \<noteq> [] \<and> st' = butlast st @ [(last st)(key \<mapsto> \<lparr>name = key, type = t\<rparr>)]"
  by (auto simp: bind_symbol_def)

lemma bind_symbol_grows: "bind_symbol key t st = Inr st' \<Longrightarrow> grows st st'"
  by (auto simp: bind_symbol_Inr grows_def)

lemma bind_symbol_bound: "bind_symbol key t st = Inr st' \<Longrightarrow> key \<in> dom (last st')"
  by (auto simp: bind_symbol_Inr)

lemma bind_args_grows: "bind_args args st = Inr st' \<Longrightarrow> grows st st'"
proof (induction args arbitrary: st)
  case Nil
  then show ?case by simp
next
  case (Cons p args)
  obtain a ann where p: "p = (a, ann)" by (cases p)
  from Cons.prems p obtain st1 where
    1: "bind_symbol a S_variable st = Inr st1" and 2: "bind_args args st1 = Inr st'"
    by (auto split: sum.splits)
  from bind_symbol_grows [OF 1] Cons.IH [OF 2] show ?case by (rule grows_trans)
qed

lemma bind_args_bound:
  "bind_args args st = Inr st' \<Longrightarrow> fst ` set args \<subseteq> dom (last st')"
proof (induction args arbitrary: st)
  case Nil
  then show ?case by simp
next
  case (Cons p args)
  obtain a ann where p: "p = (a, ann)" by (cases p)
  from Cons.prems p obtain st1 where
    1: "bind_symbol a S_variable st = Inr st1" and 2: "bind_args args st1 = Inr st'"
    by (auto split: sum.splits)
  have "a \<in> dom (last st1)" using 1 by (rule bind_symbol_bound)
  moreover have "dom (last st1) \<subseteq> dom (last st')"
    using bind_args_grows [OF 2] by (simp add: grows_def)
  ultimately show ?case using Cons.IH [OF 2] p by auto
qed

lemma and_then_grows:
  assumes "grows st (snd r)" and "\<And>st1. grows st1 (snd (k st1))"
  shows "grows st (snd (and_then r k))"
proof (cases r)
  case (Pair res st1)
  show ?thesis
  proof (cases res)
    case None
    with Pair assms(1) assms(2) [of st1] show ?thesis by (auto intro: grows_trans)
  next
    case (Some e)
    with Pair assms(1) show ?thesis by simp
  qed
qed

lemma visit_Assign_grows: "grows st (snd (visit_Assign targets v st))"
proof (induction targets v st rule: visit_Assign.induct)
  case (2 variable_name targets v st)
  then show ?case
    by (auto split: sum.splits dest: bind_symbol_grows intro: grows_trans)
qed simp_all

lemma visit_Name_grows: "grows st (snd (visit_Name x st))"
  by (simp add: visit_Name_def)

text \<open>
  No visiting method adds or removes a scope, touches a scope other than the last one, or
  unbinds a name, whether it returns or raises.
\<close>

lemma visit_grows:
  "grows st (snd (visit bi n st))"
  "grows st (snd (generic_visit bi n st))"
  "grows st (snd (visit_each bi ns st))"
  "grows st (snd (visit_field bi fld st))"
  "grows st (snd (visit_arg_nodes bi args st))"
proof (induction bi n st and bi n st and bi ns st and bi fld st and bi args st
       rule: visit_generic_visit_visit_each_visit_field_visit_arg_nodes.induct)
  case (1 bi x st)
  show ?case by (simp add: visit_Name_grows)
next
  case (2 bi f args defaults body decos returns st)
  show ?case
  proof (cases "bind_symbol f S_function st")
    case (Inl e)
    then show ?thesis by simp
  next
    case st1: (Inr st1)
    show ?thesis
    proof (cases "bind_args args st1")
      case (Inl e)
      with st1 bind_symbol_grows [OF st1] show ?thesis by simp
    next
      case st2: (Inr st2)
      from "2.IH" [OF st1 st2] bind_symbol_grows [OF st1] bind_args_grows [OF st2]
      show ?thesis unfolding visit.simps st1 st2 sum.case
        by (blast intro: grows_trans)
    qed
  qed
next
  case (3 bi c bases kws body decos st)
  show ?case
  proof (cases "bind_symbol c S_class st")
    case (Inl e)
    then show ?thesis by simp
  next
    case st1: (Inr st1)
    from "3.IH" [OF st1] bind_symbol_grows [OF st1]
    show ?thesis unfolding visit.simps st1 sum.case
      by (blast intro: grows_trans)
  qed
next
  case (4 bi targets v st)
  show ?case by (simp add: visit_Assign_grows)
next
  case (5 bi func args kws st)
  then show ?case by (cases func) simp_all
next
  case (6 bi left op right st)
  show ?case unfolding visit.simps
    by (intro and_then_grows "6.IH") (simp split: sum.splits)
qed (simp_all add: and_then_grows)

lemma and_then_assoc:
  "and_then (and_then r k1) k2 = and_then r (\<lambda>st. and_then (k1 st) k2)"
  by (cases r) (auto simp: and_then_def split: option.splits)

text \<open>Visiting a list of nodes stops at the first one that raises.\<close>

lemma visit_each_append:
  "visit_each bi (xs @ ys) st = and_then (visit_each bi xs st) (\<lambda>st1. visit_each bi ys st1)"
proof (induction xs arbitrary: st)
  case Nil
  show ?case by simp
next
  case (Cons a xs)
  have "visit_each bi (xs @ ys) =
          (\<lambda>st. and_then (visit_each bi xs st) (\<lambda>st1. visit_each bi ys st1))"
    by (rule ext) (rule Cons.IH)
  then show ?case by (simp add: and_then_assoc)
qed

lemma and_then_return [simp]: "and_then r (\<lambda>st. (None, st)) = r"
  by (cases r) (auto simp: and_then_def split: option.splits)

lemma visit_each_Nil: "visit_each bi [] = (\<lambda>st. (None, st))"
  by (rule ext) simp

lemma visit_field_each: "visit_field bi v = visit_each bi (field_nodes v)"
  by (rule ext) (cases v, simp_all add: visit_each_Nil)

lemma generic_visit_ClassDef_children:
  "generic_visit bi (ClassDef c bases kws body decos) st =
     visit_each bi (bases @ kws @ body @ decos) st"
  by (simp add: visit_each_append)

lemma bind_args_last:
  "st \<noteq> [] \<Longrightarrow>
   \<exists>st'. bind_args args st = Inr st' \<and> length st' = length st \<and> butlast st' = butlast st \<and>
     (\<forall>x. last st' x = (if x \<in> fst ` set args then Some \<lparr>name = x, type = S_variable\<rparr>
                        else last st x))"
proof (induction args arbitrary: st)
  case Nil
  then show ?case by simp
next
  case (Cons p args)
  obtain a ann where p: "p = (a, ann)" by (cases p)
  let ?st1 = "butlast st @ [(last st)(a \<mapsto> \<lparr>name = a, type = S_variable\<rparr>)]"
  have 1: "bind_symbol a S_variable st = Inr ?st1" using Cons.prems by (simp add: bind_symbol_Inr)
  have ne: "?st1 \<noteq> []" by simp
  from Cons.IH [OF ne] obtain st' where run: "bind_args args ?st1 = Inr st'"
    and len: "length st' = length ?st1" and bl: "butlast st' = butlast ?st1"
    and lst: "\<forall>x. last st' x = (if x \<in> fst ` set args then Some \<lparr>name = x, type = S_variable\<rparr>
                        else last ?st1 x)" by blast
  have "bind_args (p # args) st = Inr st'" using 1 run p by simp
  moreover have "length st' = length st" using len Cons.prems by simp
  moreover have "butlast st' = butlast st" using bl by simp
  moreover have "\<forall>x. last st' x = (if x \<in> fst ` set (p # args)
                        then Some \<lparr>name = x, type = S_variable\<rparr> else last st x)"
    using lst p by auto
  ultimately show ?case by blast
qed

text \<open>
  An undefined-name error passes unchanged through every construct that walks to it.
\<close>

lemma fst_and_then_raised: "fst r = Some e \<Longrightarrow> fst (and_then r k) = Some e"
  by (cases r) (auto simp: and_then_def)

lemma visit_arg_nodes_each: "visit_arg_nodes bi args = visit_each bi (arg_annotations args)"
proof (rule ext)
  fix st
  show "visit_arg_nodes bi args st = visit_each bi (arg_annotations args) st"
  proof (induction args arbitrary: st)
    case Nil
    show ?case by simp
  next
    case (Cons p args)
    obtain a ann where p: "p = (a, ann)" by (cases p)
    have "visit_arg_nodes bi args = visit_each bi (arg_annotations args)"
      by (rule ext) (rule Cons.IH)
    then show ?case by (simp add: p visit_each_append visit_field_each)
  qed
qed

lemma generic_visit_FunctionDef_walk:
  "generic_visit bi (FunctionDef f args defaults body decos returns) st =
     visit_each bi (arg_annotations args @ defaults @ body @ decos @ field_nodes returns) st"
  by (simp add: visit_arg_nodes_each visit_each_append visit_field_each and_then_assoc)

lemma undefined_in_value_raises:
  "undefined_in_value x v st \<Longrightarrow> get_value_type st v = Inl (ValueError (UndefinedVariable x))"
  by (induction rule: undefined_in_value.induct) simp_all

lemma undefined_lookup_raises:
  "undefined_lookup bi x n st \<Longrightarrow> fst (visit bi n st) = Some (ValueError (UndefinedVariable x))"
  "undefined_lookup_each bi x ns st \<Longrightarrow>
     fst (visit_each bi ns st) = Some (ValueError (UndefinedVariable x))"
proof (induction rule: undefined_lookup_undefined_lookup_each.inducts)
  case (at_Name x st bi)
  then show ?case by (simp add: visit_Name_def)
next
  case (in_Call_other func bi x args st kws)
  then show ?case by (cases func) simp_all
next
  case (in_BinOp_operand bi x left right st op)
  then show ?case
    by (cases "visit bi left st"; cases "visit bi right (snd (visit bi left st))")
       (auto simp: and_then_def split: option.splits)
next
  case (in_BinOp_types bi left right st st2 x op)
  from in_BinOp_types(1) obtain st1 where l: "visit bi left st = (None, st1)"
    and r: "visit bi right st1 = (None, st2)"
    by (cases "visit bi left st"; cases "visit bi right (snd (visit bi left st))")
       (auto simp: and_then_def split: option.splits)
  from undefined_in_value_raises [OF in_BinOp_types(2)]
  have "get_value_type st2 left = Inl (ValueError (UndefinedVariable x)) \<or>
        (\<exists>t. get_value_type st2 left = Inr t \<and>
              get_value_type st2 right = Inl (ValueError (UndefinedVariable x)))"
    by (auto split: sum.splits if_splits)
  with l r show ?case by auto
next
  case (in_Assign_value x v st bi y targets)
  from undefined_in_value_raises [OF this] show ?case by simp
next
  case (in_FunctionDef f st st1 args st2 bi x defaults body decos returns)
  have "visit bi (FunctionDef f args defaults body decos returns) st =
          generic_visit bi (FunctionDef f args defaults body decos returns) st2"
    by (simp only: visit.simps in_FunctionDef(1,2) sum.case)
  with in_FunctionDef(4) show ?case by (simp only: generic_visit_FunctionDef_walk)
next
  case (in_ClassDef c st st1 bi x bases kws body decos)
  have "visit bi (ClassDef c bases kws body decos) st =
          generic_visit bi (ClassDef c bases kws body decos) st1"
    by (simp only: visit.simps in_ClassDef(1) sum.case)
  with in_ClassDef(3) show ?case by (simp only: generic_visit_ClassDef_children)
next
  case (at_first bi x n st ns)
  then show ?case by (simp add: fst_and_then_raised)
qed simp_all

section \<open>The checker and the analyzer agree\<close>

lemma env_upd_if: "(\<lambda>a. if a = x then Some t else \<Gamma> a) = \<Gamma>(x \<mapsto> t)"
  by (rule ext) simp

lemma scope_of_empty [simp]: "scope_of Map.empty = Map.empty"
  by (simp add: scope_of_def)

lemma scope_of_upd: "(scope_of \<Gamma>)(x \<mapsto> \<lparr>name = x, type = t\<rparr>) = scope_of (\<Gamma>(x \<mapsto> t))"
  by (rule ext) (simp add: scope_of_def)

lemma scope_of_None [simp]: "scope_of \<Gamma> x = None \<longleftrightarrow> \<Gamma> x = None"
  by (simp add: scope_of_def)

lemma bind_symbol_scope_of:
  "bind_symbol x t [scope_of \<Gamma>] = Inr [scope_of (\<Gamma>(x \<mapsto> t))]"
  by (simp add: bind_symbol_def scope_of_upd)

lemma bind_args_scope_of:
  "bind_args args [scope_of \<Gamma>] = Inr [scope_of (param_env \<Gamma> args)]"
proof (induction args arbitrary: \<Gamma>)
  case Nil
  show ?case by simp
next
  case (Cons p args)
  obtain a ann where p: "p = (a, ann)" by (cases p)
  show ?case unfolding p by (simp add: bind_symbol_scope_of Cons.IH env_upd_if)
qed

lemma static_type_Some:
  "static_type \<Gamma> e = Some t \<Longrightarrow> get_value_type [scope_of \<Gamma>] e = Inr t"
proof (induction \<Gamma> e arbitrary: t rule: static_type.induct)
  case (1 \<Gamma> x)
  then show ?case by (simp add: scope_of_def)
next
  case (2 \<Gamma> left op right)
  then show ?case by (auto split: option.splits if_splits)
qed simp_all

lemma static_type_None:
  "static_type \<Gamma> e = None \<Longrightarrow> \<exists>err. get_value_type [scope_of \<Gamma>] e = Inl err"
proof (induction \<Gamma> e rule: static_type.induct)
  case (1 \<Gamma> x)
  then show ?case by (simp add: scope_of_def)
next
  case (2 \<Gamma> left op right)
  show ?case
  proof (cases "static_type \<Gamma> left")
    case None
    with "2.IH"(1) show ?thesis by auto
  next
    case l: (Some a)
    show ?thesis
    proof (cases "static_type \<Gamma> right")
      case None
      with "2.IH"(2) static_type_Some [OF l] show ?thesis by auto
    next
      case r: (Some b)
      with l "2.prems" static_type_Some [OF l] static_type_Some [OF r] show ?thesis
        by (auto split: if_splits)
    qed
  qed
qed simp_all

lemma visit_Assign_check_Some:
  "check_Assign \<Gamma> targets v = Some \<Gamma>' \<Longrightarrow>
   visit_Assign targets v [scope_of \<Gamma>] = (None, [scope_of \<Gamma>'])"
proof (induction targets arbitrary: \<Gamma>)
  case Nil
  then show ?case by simp
next
  case (Cons target targets)
  from Cons.prems obtain x where target: "target = Name x" by (cases target) simp_all
  from Cons.prems target obtain t where t: "static_type \<Gamma> v = Some t"
    and rest: "check_Assign (\<Gamma>(x \<mapsto> t)) targets v = Some \<Gamma>'"
    by (auto split: option.splits)
  from Cons.IH [OF rest] static_type_Some [OF t] show ?case
    by (simp add: target bind_symbol_scope_of env_upd_if)
qed

lemma visit_Assign_check_None:
  "check_Assign \<Gamma> targets v = None \<Longrightarrow> fst (visit_Assign targets v [scope_of \<Gamma>]) \<noteq> None"
proof (induction targets arbitrary: \<Gamma>)
  case Nil
  then show ?case by simp
next
  case (Cons target targets)
  show ?case
  proof (cases "is_Name target")
    case False
    then show ?thesis by (cases target) simp_all
  next
    case True
    then obtain x where target: "target = Name x" by (cases target) simp_all
    show ?thesis
    proof (cases "static_type \<Gamma> v")
      case None
      from static_type_None [OF this] show ?thesis by (auto simp: target)
    next
      case (Some t)
      with Cons.prems target have "check_Assign (\<Gamma>(x \<mapsto> t)) targets v = None" by simp
      from Cons.IH [OF this] static_type_Some [OF Some] show ?thesis
        by (simp add: target bind_symbol_scope_of env_upd_if)
    qed
  qed
qed


lemma visit_FunctionDef_scope_of:
  "visit bi (FunctionDef f args defaults body decos returns) [scope_of \<Gamma>] =
     visit_each bi (arg_annotations args @ defaults @ body @ decos @ field_nodes returns)
       [scope_of (param_env (\<Gamma>(f \<mapsto> S_function)) args)]"
  by (simp only: visit.simps bind_symbol_scope_of bind_args_scope_of sum.case
        generic_visit_FunctionDef_walk)

lemma visit_ClassDef_scope_of:
  "visit bi (ClassDef c bases kws body decos) [scope_of \<Gamma>] =
     visit_each bi (bases @ kws @ body @ decos) [scope_of (\<Gamma>(c \<mapsto> S_class))]"
  by (simp only: visit.simps bind_symbol_scope_of sum.case generic_visit_ClassDef_children)

lemma visit_Name_scope_of:
  "visit_Name x [scope_of \<Gamma>] =
     (if x \<in> dom \<Gamma> then (None, [scope_of \<Gamma>])
      else (Some (ValueError (UndefinedVariable x)), [scope_of \<Gamma>]))"
  by (cases "\<Gamma> x") (simp_all add: visit_Name_def scope_of_def domIff)

lemma check_sound:
  "check bi \<Gamma> n = Some \<Gamma>' \<Longrightarrow> visit bi n [scope_of \<Gamma>] = (None, [scope_of \<Gamma>'])"
  "check_each bi \<Gamma> ns = Some \<Gamma>' \<Longrightarrow> visit_each bi ns [scope_of \<Gamma>] = (None, [scope_of \<Gamma>'])"
proof (induction bi \<Gamma> n and bi \<Gamma> ns arbitrary: \<Gamma>' and \<Gamma>'
       rule: check_check_each.induct)
  case (1 bi \<Gamma> x)
  then show ?case by (simp add: visit_Name_scope_of split: if_splits)
next
  case (6 bi \<Gamma> v)
  then show ?case by (simp add: visit_field_each)
next
  case (9 bi \<Gamma> func args kws)
  then show ?case by (cases func) (simp_all split: if_splits)
next
  case (10 bi \<Gamma> left op right)
  from "10.prems" obtain \<Gamma>1 a b where l: "check bi \<Gamma> left = Some \<Gamma>1"
    and r: "check bi \<Gamma>1 right = Some \<Gamma>'"
    and a: "static_type \<Gamma>' left = Some a" and b: "static_type \<Gamma>' right = Some b"
    and ok: "(a, b) \<in> set binop_pairs"
    by (auto split: option.splits if_splits)
  from "10.IH"(1) [OF l] "10.IH"(2) [OF l r] static_type_Some [OF a] static_type_Some [OF b] ok
  show ?case by simp
next
  case (11 bi \<Gamma> targets v)
  then show ?case by (simp add: visit_Assign_check_Some)
next
  case (12 bi \<Gamma> f args defaults body decos returns)
  from "12.prems" "12.IH" show ?case by (simp only: visit_FunctionDef_scope_of check.simps)
next
  case (13 bi \<Gamma> c bases kws body decos)
  from "13.prems" "13.IH" show ?case by (simp only: visit_ClassDef_scope_of check.simps)
next
  case (15 bi \<Gamma> n ns)
  from "15.prems" obtain \<Gamma>1 where n: "check bi \<Gamma> n = Some \<Gamma>1"
    and ns: "check_each bi \<Gamma>1 ns = Some \<Gamma>'"
    by (auto split: option.splits)
  from "15.IH"(1) [OF n] "15.IH"(2) [OF n ns] show ?case by simp
qed simp_all

lemma check_complete:
  "check bi \<Gamma> n = None \<Longrightarrow> fst (visit bi n [scope_of \<Gamma>]) \<noteq> None"
  "check_each bi \<Gamma> ns = None \<Longrightarrow> fst (visit_each bi ns [scope_of \<Gamma>]) \<noteq> None"
proof (induction bi \<Gamma> n and bi \<Gamma> ns rule: check_check_each.induct)
  case (1 bi \<Gamma> x)
  then show ?case by (simp add: visit_Name_scope_of split: if_splits)
next
  case (6 bi \<Gamma> v)
  then show ?case by (simp add: visit_field_each)
next
  case (9 bi \<Gamma> func args kws)
  then show ?case by (cases func) (simp_all split: if_splits)
next
  case (10 bi \<Gamma> left op right)
  show ?case
  proof (cases "check bi \<Gamma> left")
    case None
    from "10.IH"(1) [OF None] show ?thesis by (auto simp: fst_and_then_raised)
  next
    case l: (Some \<Gamma>1)
    note vl = check_sound(1) [OF l]
    show ?thesis
    proof (cases "check bi \<Gamma>1 right")
      case None
      from "10.IH"(2) [OF l None] vl show ?thesis by (auto simp: fst_and_then_raised)
    next
      case r: (Some \<Gamma>2)
      note vr = check_sound(1) [OF r]
      show ?thesis
      proof (cases "static_type \<Gamma>2 left")
        case None
        from static_type_None [OF None] vl vr show ?thesis by auto
      next
        case a: (Some a)
        show ?thesis
        proof (cases "static_type \<Gamma>2 right")
          case None
          from static_type_None [OF None] static_type_Some [OF a] vl vr show ?thesis by auto
        next
          case b: (Some b)
          from "10.prems" l r a b have "(a, b) \<notin> set binop_pairs" by (auto split: if_splits)
          with static_type_Some [OF a] static_type_Some [OF b] vl vr show ?thesis by simp
        qed
      qed
    qed
  qed
next
  case (11 bi \<Gamma> targets v)
  then show ?case by (simp add: visit_Assign_check_None)
next
  case (12 bi \<Gamma> f args defaults body decos returns)
  from "12.prems" have "check_each bi (param_env (\<Gamma>(f \<mapsto> S_function)) args)
      (arg_annotations args @ defaults @ body @ decos @ field_nodes returns) = None" by simp
  from "12.IH" [OF this] show ?case unfolding visit_FunctionDef_scope_of .
next
  case (13 bi \<Gamma> c bases kws body decos)
  from "13.prems" have "check_each bi (\<Gamma>(c \<mapsto> S_class)) (bases @ kws @ body @ decos) = None"
    by simp
  from "13.IH" [OF this] show ?case unfolding visit_ClassDef_scope_of .
next
  case (15 bi \<Gamma> n ns)
  show ?case
  proof (cases "check bi \<Gamma> n")
    case None
    from "15.IH"(1) [OF None] show ?thesis by (auto simp: fst_and_then_raised)
  next
    case n: (Some \<Gamma>1)
    with "15.prems" have "check_each bi \<Gamma>1 ns = None" by simp
    from "15.IH"(2) [OF n this] check_sound(1) [OF n] show ?thesis by simp
  qed
qed simp_all

section \<open>Name resolution\<close>

text \<open>
  C3. The claim is that a name declared in an inner scope hides the outer declaration
  only until the inner scope is left: with \<open>x\<close> declared \<open>Int\<close> outside and \<open>Str\<close> inside,
  resolving \<open>x\<close> yields \<open>Int\<close> again afterwards. In \<^verbatim>\<open>x = 1\<close> followed by a function whose
  body is \<^verbatim>\<open>x = "s"\<close>, the table still has its one scope after the function, \<open>x\<close> resolves
  to \<open>str\<close> there, and a following \<^verbatim>\<open>y = x + 1\<close> is refused for its operand types.
\<close>

theorem function_body_binding_replaces_outer:
  "visit [] (Module [Assign [Name ''x''] (Num (IntNum 1)),
                     FunctionDef ''f'' [] [] [Assign [Name ''x''] (Str ''s'')] [] None])
     [Map.empty]
     = (None, [Map.empty(''x'' \<mapsto> \<lparr>name = ''x'', type = T_int\<rparr>,
                         ''f'' \<mapsto> \<lparr>name = ''f'', type = S_function\<rparr>,
                         ''x'' \<mapsto> \<lparr>name = ''x'', type = T_str\<rparr>)]) \<and>
   get_value_type [Map.empty(''x'' \<mapsto> \<lparr>name = ''x'', type = T_int\<rparr>,
                             ''f'' \<mapsto> \<lparr>name = ''f'', type = S_function\<rparr>,
                             ''x'' \<mapsto> \<lparr>name = ''x'', type = T_str\<rparr>)] (Name ''x'')
     = Inr T_str \<and>
   analyze_semantics []
     (Module [Assign [Name ''x''] (Num (IntNum 1)),
              FunctionDef ''f'' [] [] [Assign [Name ''x''] (Str ''s'')] [] None,
              Assign [Name ''y''] (BinOp (Name ''x'') Add (Num (IntNum 1)))])
     = Failed (ValueError (TypeMismatch T_str T_int))"
  by (simp add: bind_symbol_def analyze_semantics_def)

text \<open>
  C3, as the code has it. \<open>get_value_type\<close> resolves a name in the last scope of the table
  and nowhere else: whatever the other scopes bind, the answer is the type the last scope
  records, or the undefined-name error when the last scope has no binding. No visiting
  method adds or removes a scope, or touches a scope other than the last one.
\<close>

theorem get_value_type_last_scope_only:
  "get_value_type (outers @ [inner]) (Name x) =
     (case inner x of
        Some symbol \<Rightarrow> Inr (type symbol)
      | None \<Rightarrow> Inl (ValueError (UndefinedVariable x))) \<and>
   (visit bi n st = (res, st') \<longrightarrow> length st' = length st \<and> butlast st' = butlast st)"
proof
  show "get_value_type (outers @ [inner]) (Name x) =
     (case inner x of
        Some symbol \<Rightarrow> Inr (type symbol)
      | None \<Rightarrow> Inl (ValueError (UndefinedVariable x)))"
    by simp
  show "visit bi n st = (res, st') \<longrightarrow> length st' = length st \<and> butlast st' = butlast st"
    using visit_grows(1) [of st bi n] by (auto simp: grows_def)
qed

theorem get_value_type_last_scope_only_witness:
  "get_value_type [Map.empty(''x'' \<mapsto> \<lparr>name = ''x'', type = T_int\<rparr>),
                   Map.empty(''x'' \<mapsto> \<lparr>name = ''x'', type = T_str\<rparr>)] (Name ''x'') = Inr T_str \<and>
   get_value_type [Map.empty(''x'' \<mapsto> \<lparr>name = ''x'', type = T_int\<rparr>)] (Name ''x'') = Inr T_int \<and>
   get_value_type [Map.empty(''x'' \<mapsto> \<lparr>name = ''x'', type = T_int\<rparr>), Map.empty] (Name ''x'')
     = Inl (ValueError (UndefinedVariable ''x'')) \<and>
   visit [] (Assign [Name ''x''] (Num (IntNum 1))) [Map.empty]
     = (None, [Map.empty(''x'' \<mapsto> \<lparr>name = ''x'', type = T_int\<rparr>)]) \<and>
   length [Map.empty(''x'' \<mapsto> \<lparr>name = ''x'', type = T_int\<rparr>)] = length [Map.empty :: scope]"
proof -
  have run: "visit [] (Assign [Name ''x''] (Num (IntNum 1))) [Map.empty]
     = (None, [Map.empty(''x'' \<mapsto> \<lparr>name = ''x'', type = T_int\<rparr>)])"
    by (simp add: bind_symbol_def)
  from get_value_type_last_scope_only
         [of "[Map.empty(''x'' \<mapsto> \<lparr>name = ''x'', type = T_int\<rparr>)]"
             "Map.empty(''x'' \<mapsto> \<lparr>name = ''x'', type = T_str\<rparr>)" "''x''"
             "[]" "Assign [Name ''x''] (Num (IntNum 1))" "[Map.empty]" None
             "[Map.empty(''x'' \<mapsto> \<lparr>name = ''x'', type = T_int\<rparr>)]"]
       get_value_type_last_scope_only
         [of "[]" "Map.empty(''x'' \<mapsto> \<lparr>name = ''x'', type = T_int\<rparr>)" "''x''"
             "[]" "Assign [Name ''x''] (Num (IntNum 1))" "[Map.empty]" None
             "[Map.empty(''x'' \<mapsto> \<lparr>name = ''x'', type = T_int\<rparr>)]"]
       get_value_type_last_scope_only
         [of "[Map.empty(''x'' \<mapsto> \<lparr>name = ''x'', type = T_int\<rparr>)]" "Map.empty" "''x''"
             "[]" "Assign [Name ''x''] (Num (IntNum 1))" "[Map.empty]" None
             "[Map.empty(''x'' \<mapsto> \<lparr>name = ''x'', type = T_int\<rparr>)]"]
       run
  show ?thesis by simp
qed

section \<open>Undefined names\<close>

text \<open>
  C2. The claim is that every program with a name use of an identifier declared in no
  enclosing scope fails with the undefined-name diagnostic naming it. In \<^verbatim>\<open>x.g()\<close> the
  name \<open>x\<close> is used and never declared, yet the analysis is approved: \<open>visit_Call\<close> visits
  the arguments of a call and never its callee expression. In \<^verbatim>\<open>f()\<close> followed by \<^verbatim>\<open>x\<close>,
  with neither declared, the diagnostic is the one of the call, raised first.
\<close>

theorem unvisited_name_use_not_reported:
  "analyze_semantics [''print'']
     (Module [Expr (Call (Attribute (Name ''x'') ''g'') [] [])]) = Approved \<and>
   analyze_semantics [''print'']
     (Module [Expr (Call (Name ''f'') [] []), Expr (Name ''x'')])
     = Failed (ValueError (UndefinedFunction ''f''))"
  by (simp add: analyze_semantics_def)

text \<open>
  C2, as the code has it. Whenever the walk comes, with nothing raised before, to the
  lookup of a name that is then unbound (a name use that is visited and is bound in no
  scope, or a name in the value of an assignment or in an operand of a binary operation
  that the last scope does not bind), the analysis fails with the undefined-name
  diagnostic naming that identifier, wherever the lookup sits: in a statement, in an
  argument of a call, in an attribute read, in an operand, in the body of a function or a
  class.
\<close>

theorem undefined_name_lookup_fails:
  "(undefined_lookup bi x n st \<longrightarrow>
      fst (visit bi n st) = Some (ValueError (UndefinedVariable x))) \<and>
   (undefined_lookup bi x tree [Map.empty] \<longrightarrow>
      analyze_semantics bi tree = Failed (ValueError (UndefinedVariable x)))"
proof (intro conjI impI)
  assume "undefined_lookup bi x n st"
  then show "fst (visit bi n st) = Some (ValueError (UndefinedVariable x))"
    by (rule undefined_lookup_raises(1))
next
  assume "undefined_lookup bi x tree [Map.empty]"
  from undefined_lookup_raises(1) [OF this]
  show "analyze_semantics bi tree = Failed (ValueError (UndefinedVariable x))"
    by (cases "visit bi tree [Map.empty]") (auto simp: analyze_semantics_def)
qed

theorem undefined_name_lookup_fails_witness:
  "analyze_semantics [''print'']
     (Module [Expr (Call (Name ''print'') [Num (IntNum 1), Name ''x''] [])])
     = Failed (ValueError (UndefinedVariable ''x'')) \<and>
   analyze_semantics [''print'']
     (Module [FunctionDef ''f'' [] [] [Return (Some (Name ''x''))] [] None])
     = Failed (ValueError (UndefinedVariable ''x'')) \<and>
   analyze_semantics [''print''] (Module [Expr (Attribute (Name ''x'') ''a'')])
     = Failed (ValueError (UndefinedVariable ''x'')) \<and>
   analyze_semantics [''print''] (Module [Expr (BinOp (Name ''x'') Add (Num (IntNum 1)))])
     = Failed (ValueError (UndefinedVariable ''x'')) \<and>
   analyze_semantics [''print''] (Module [Assign [Name ''y''] (Name ''x'')])
     = Failed (ValueError (UndefinedVariable ''x''))"
proof -
  have 1: "undefined_lookup [''print''] ''x''
      (Module [Expr (Call (Name ''print'') [Num (IntNum 1), Name ''x''] [])]) [Map.empty]"
    by (rule in_Module, rule at_first, rule in_Expr, rule in_Call_builtin, simp,
        rule at_later, simp, rule at_first, rule at_Name, simp)
  have 2: "undefined_lookup [''print''] ''x''
      (Module [FunctionDef ''f'' [] [] [Return (Some (Name ''x''))] [] None]) [Map.empty]"
    by (rule in_Module, rule at_first, rule in_FunctionDef, simp add: bind_symbol_def, simp,
        simp, rule at_first, rule in_Return, rule at_Name, simp)
  have 3: "undefined_lookup [''print''] ''x'' (Module [Expr (Attribute (Name ''x'') ''a'')])
      [Map.empty]"
    by (rule in_Module, rule at_first, rule in_Expr, rule in_Attribute, rule at_Name, simp)
  have 4: "undefined_lookup [''print''] ''x''
      (Module [Expr (BinOp (Name ''x'') Add (Num (IntNum 1)))]) [Map.empty]"
    by (rule in_Module, rule at_first, rule in_Expr, rule in_BinOp_operand, rule at_first,
        rule at_Name, simp)
  have 5: "undefined_lookup [''print''] ''x'' (Module [Assign [Name ''y''] (Name ''x'')])
      [Map.empty]"
    by (rule in_Module, rule at_first, rule in_Assign_value, rule value_Name, simp_all)
  note fails = undefined_name_lookup_fails [THEN conjunct2, rule_format]
  from fails [OF 1] fails [OF 2] fails [OF 3] fails [OF 4] fails [OF 5] show ?thesis by simp
qed

section \<open>Function declarations\<close>

text \<open>
  C4. The claim is that a function declaration is checked in a new nested scope, so that
  after the node no parameter name is bound in the enclosing scope. After
  \<^verbatim>\<open>def f(a): return a\<close> the only scope binds \<open>a\<close> as a variable, and a later use of \<open>a\<close>
  at module level is approved.
\<close>

theorem function_parameter_leaks:
  "visit [] (FunctionDef ''f'' [(''a'', None)] [] [Return (Some (Name ''a''))] [] None)
     [Map.empty]
     = (None, [Map.empty(''f'' \<mapsto> \<lparr>name = ''f'', type = S_function\<rparr>,
                         ''a'' \<mapsto> \<lparr>name = ''a'', type = S_variable\<rparr>)]) \<and>
   analyze_semantics []
     (Module [FunctionDef ''f'' [(''a'', None)] [] [Return (Some (Name ''a''))] [] None,
              Expr (Name ''a'')]) = Approved"
  by (simp add: bind_symbol_def visit_Name_def analyze_semantics_def)

text \<open>
  C4, as the code has it. Handling a function declaration opens no scope. In the current
  (last) scope it binds the function name as \<open>'function'\<close> and then every parameter of
  \<^verbatim>\<open>node.args.args\<close> as \<open>'variable'\<close>, a parameter named like the function taking its place;
  from the table \<open>st2\<close> so obtained, with the same number of scopes and the other scopes
  untouched, it walks the annotations, the defaults, the body, the decorators and the
  return annotation, and the outcome of that walk is the outcome of the declaration.
  Afterwards, whether the walk returned or raised, the number of scopes is unchanged, the
  scopes other than the last are untouched, and the function name, the parameter names
  and every name bound before are still bound in the current scope.
\<close>

theorem visit_FunctionDef_same_scope:
  assumes "st \<noteq> []"
  shows "\<exists>st2.
     length st2 = length st \<and> butlast st2 = butlast st \<and>
     (\<forall>x. last st2 x =
        (if x \<in> fst ` set args then Some \<lparr>name = x, type = S_variable\<rparr>
         else if x = f then Some \<lparr>name = f, type = S_function\<rparr>
         else last st x)) \<and>
     visit bi (FunctionDef f args defaults body decos returns) st =
       and_then (visit_arg_nodes bi args st2) (\<lambda>st3.
       and_then (visit_each bi defaults st3) (\<lambda>st4.
       and_then (visit_each bi body st4) (\<lambda>st5.
       and_then (visit_each bi decos st5) (\<lambda>st6.
         visit_field bi returns st6)))) \<and>
     length (snd (visit bi (FunctionDef f args defaults body decos returns) st)) = length st \<and>
     butlast (snd (visit bi (FunctionDef f args defaults body decos returns) st)) = butlast st \<and>
     dom (last st) \<union> {f} \<union> fst ` set args
       \<subseteq> dom (last (snd (visit bi (FunctionDef f args defaults body decos returns) st)))"
proof -
  let ?node = "FunctionDef f args defaults body decos returns"
  let ?st1 = "butlast st @ [(last st)(f \<mapsto> \<lparr>name = f, type = S_function\<rparr>)]"
  have st1: "bind_symbol f S_function st = Inr ?st1" using assms by (simp add: bind_symbol_Inr)
  have ne: "?st1 \<noteq> []" by simp
  from bind_args_last [OF ne, of args] obtain st2 where st2: "bind_args args ?st1 = Inr st2"
    and len: "length st2 = length ?st1" and bl: "butlast st2 = butlast ?st1"
    and lst: "\<forall>x. last st2 x = (if x \<in> fst ` set args then Some \<lparr>name = x, type = S_variable\<rparr>
                        else last ?st1 x)" by blast
  have run: "visit bi ?node st = generic_visit bi ?node st2"
    by (simp only: visit.simps st1 st2 sum.case)
  have a: "length st2 = length st" using len assms by simp
  have b: "butlast st2 = butlast st" using bl by simp
  have c: "\<forall>x. last st2 x =
        (if x \<in> fst ` set args then Some \<lparr>name = x, type = S_variable\<rparr>
         else if x = f then Some \<lparr>name = f, type = S_function\<rparr>
         else last st x)" using lst by auto
  define st' where "st' = snd (visit bi ?node st)"
  have g: "grows st2 st'"
    unfolding st'_def run by (rule visit_grows(2))
  have d: "length st' = length st" and e: "butlast st' = butlast st"
    and sub: "dom (last st2) \<subseteq> dom (last st')"
    using g a b by (simp_all add: grows_def)
  have "dom (last st) \<union> {f} \<union> fst ` set args \<subseteq> dom (last st2)"
    using c by (auto simp: dom_def)
  with sub have h: "dom (last st) \<union> {f} \<union> fst ` set args \<subseteq> dom (last st')"
    by blast
  have r: "visit bi ?node st =
       and_then (visit_arg_nodes bi args st2) (\<lambda>st3.
       and_then (visit_each bi defaults st3) (\<lambda>st4.
       and_then (visit_each bi body st4) (\<lambda>st5.
       and_then (visit_each bi decos st5) (\<lambda>st6.
         visit_field bi returns st6))))"
    unfolding run by simp
  from a b c r d e h show ?thesis unfolding st'_def by blast
qed

theorem visit_FunctionDef_same_scope_witness:
  "[Map.empty(''a'' \<mapsto> \<lparr>name = ''a'', type = T_int\<rparr>)] \<noteq> [] \<and>
   (\<exists>st2.
     length st2 = length [Map.empty(''a'' \<mapsto> \<lparr>name = ''a'', type = T_int\<rparr>)] \<and>
     last st2 ''a'' = Some \<lparr>name = ''a'', type = S_variable\<rparr> \<and>
     last st2 ''g'' = Some \<lparr>name = ''g'', type = S_function\<rparr> \<and>
     visit [] (FunctionDef ''g'' [(''a'', None)] [] [Return (Some (Name ''a''))] [] None)
       [Map.empty(''a'' \<mapsto> \<lparr>name = ''a'', type = T_int\<rparr>)]
       = visit_each [] [Return (Some (Name ''a''))] st2) \<and>
   {''a'', ''g''}
     \<subseteq> dom (last (snd (visit []
         (FunctionDef ''g'' [(''a'', None)] [] [Return (Some (Name ''a''))] [] None)
         [Map.empty(''a'' \<mapsto> \<lparr>name = ''a'', type = T_int\<rparr>)])))"
proof -
  have ne: "[Map.empty(''a'' \<mapsto> \<lparr>name = ''a'', type = T_int\<rparr>)] \<noteq> []" by simp
  from visit_FunctionDef_same_scope
         [OF ne, of "[(''a'', None)]" "''g''" "[]" "[]" "[Return (Some (Name ''a''))]" "[]" None]
  obtain st2 where
    "length st2 = length [Map.empty(''a'' \<mapsto> \<lparr>name = ''a'', type = T_int\<rparr>)]"
    and "\<forall>x. last st2 x =
        (if x \<in> fst ` set [(''a'', None :: node option)]
         then Some \<lparr>name = x, type = S_variable\<rparr>
         else if x = ''g'' then Some \<lparr>name = ''g'', type = S_function\<rparr>
         else last [Map.empty(''a'' \<mapsto> \<lparr>name = ''a'', type = T_int\<rparr>)] x)"
    and "visit [] (FunctionDef ''g'' [(''a'', None)] [] [Return (Some (Name ''a''))] [] None)
           [Map.empty(''a'' \<mapsto> \<lparr>name = ''a'', type = T_int\<rparr>)] =
         and_then (visit_arg_nodes [] [(''a'', None)] st2) (\<lambda>st3.
         and_then (visit_each [] [] st3) (\<lambda>st4.
         and_then (visit_each [] [Return (Some (Name ''a''))] st4) (\<lambda>st5.
         and_then (visit_each [] [] st5) (\<lambda>st6.
           visit_field [] None st6))))"
    and "dom (last [Map.empty(''a'' \<mapsto> \<lparr>name = ''a'', type = T_int\<rparr>)]) \<union> {''g''}
           \<union> fst ` set [(''a'', None :: node option)]
         \<subseteq> dom (last (snd (visit []
             (FunctionDef ''g'' [(''a'', None)] [] [Return (Some (Name ''a''))] [] None)
             [Map.empty(''a'' \<mapsto> \<lparr>name = ''a'', type = T_int\<rparr>)])))"
    by blast
  then have "length st2 = length [Map.empty(''a'' \<mapsto> \<lparr>name = ''a'', type = T_int\<rparr>)] \<and>
     last st2 ''a'' = Some \<lparr>name = ''a'', type = S_variable\<rparr> \<and>
     last st2 ''g'' = Some \<lparr>name = ''g'', type = S_function\<rparr> \<and>
     visit [] (FunctionDef ''g'' [(''a'', None)] [] [Return (Some (Name ''a''))] [] None)
       [Map.empty(''a'' \<mapsto> \<lparr>name = ''a'', type = T_int\<rparr>)]
       = visit_each [] [Return (Some (Name ''a''))] st2"
    and "{''a'', ''g''}
     \<subseteq> dom (last (snd (visit []
         (FunctionDef ''g'' [(''a'', None)] [] [Return (Some (Name ''a''))] [] None)
         [Map.empty(''a'' \<mapsto> \<lparr>name = ''a'', type = T_int\<rparr>)])))"
    by (simp_all del: visit.simps)
  with ne show ?thesis by blast
qed

section \<open>Calls\<close>

text \<open>
  C5. The claim is that call validation consults the symbol table: a declared function
  can be called, an undeclared name cannot, and neither can a name declared as a
  variable. The code rejects the call of a function declared just before, and approves
  the call of \<open>print\<close> whether it is undeclared or was assigned a number.
\<close>

theorem declared_function_call_rejected:
  "analyze_semantics [''print'']
     (Module [FunctionDef ''f'' [] [] [Return None] [] None,
              Expr (Call (Name ''f'') [] [])])
     = Failed (ValueError (UndefinedFunction ''f'')) \<and>
   analyze_semantics [''print''] (Module [Expr (Call (Name ''print'') [] [])]) = Approved \<and>
   analyze_semantics [''print'']
     (Module [Assign [Name ''print''] (Num (IntNum 1)),
              Expr (Call (Name ''print'') [Num (IntNum 2)] [])]) = Approved"
  by (simp add: bind_symbol_def analyze_semantics_def)

text \<open>
  C5, as the code has it. Call validation consults the list of built-in names only, never
  the symbol table: a call whose callee is a plain name has its arguments visited when
  the name is a built-in, and otherwise fails with the undefined-function diagnostic
  naming the callee, whatever the table binds.
\<close>

theorem visit_Call_checks_builtins_only:
  "visit bi (Call (Name func_name) args kws) st =
     (if func_name \<in> set bi then visit_each bi args st
      else (Some (ValueError (UndefinedFunction func_name)), st))"
  by simp

theorem visit_Call_checks_builtins_only_witness:
  "visit [''print'', ''len''] (Call (Name ''len'') [Str ''abc''] []) [Map.empty]
     = (None, [Map.empty]) \<and>
   visit [''print'', ''len''] (Call (Name ''size'') [Str ''abc''] []) [Map.empty]
     = (Some (ValueError (UndefinedFunction ''size'')), [Map.empty])"
  using visit_Call_checks_builtins_only [of "[''print'', ''len'']" "''len''" "[Str ''abc'']" "[]" "[Map.empty]"]
    visit_Call_checks_builtins_only [of "[''print'', ''len'']" "''size''" "[Str ''abc'']" "[]" "[Map.empty]"]
  by simp

text \<open>
  C10. A call whose callee is not a plain identifier gets no validation of the callee:
  the outcome of visiting the call is the outcome of visiting its argument expressions,
  whatever the callee is.
\<close>

theorem visit_Call_non_name_callee_unchecked:
  "\<not> is_Name func \<Longrightarrow> visit bi (Call func args kws) st = visit_each bi args st"
  by (cases func) simp_all

theorem visit_Call_non_name_callee_unchecked_witness:
  "\<not> is_Name (Attribute (Name ''obj'') ''run'') \<and>
   visit [''print''] (Call (Attribute (Name ''obj'') ''run'') [Num (IntNum 1)] []) [Map.empty]
     = (None, [Map.empty])"
  using visit_Call_non_name_callee_unchecked
    [of "Attribute (Name ''obj'') ''run''" "[''print'']" "[Num (IntNum 1)]" "[]" "[Map.empty]"]
  by simp

section \<open>Binary operations\<close>

text \<open>
  C6. The claim is that the pair \<open>(Str, Str)\<close> is accepted for concatenation only and never
  for an arithmetic operator. The subtraction of two strings is accepted.
\<close>

theorem visit_BinOp_string_subtraction_accepted:
  "visit [] (BinOp (Str ''a'') Sub (Str ''b'')) [Map.empty] = (None, [Map.empty])"
  by (simp add: binop_pairs_def)

text \<open>
  C6, as the code has it. The check does not look at the operator. Once both operands are
  visited without error and their types inferred, the operation is accepted exactly for
  the pairs \<open>(Int, Int)\<close>, \<open>(Float, Float)\<close>, \<open>(Int, Float)\<close>, \<open>(Float, Int)\<close> and
  \<open>(Str, Str)\<close>; every other pair fails with the type-mismatch diagnostic.
\<close>

theorem visit_BinOp_accepted_pairs:
  "visit bi left st = (None, st1) \<Longrightarrow> visit bi right st1 = (None, st2) \<Longrightarrow>
   get_value_type st2 left = Inr left_type \<Longrightarrow> get_value_type st2 right = Inr right_type \<Longrightarrow>
   visit bi (BinOp left op right) st =
     (if (left_type, right_type) \<in>
           {(T_int, T_int), (T_float, T_float), (T_int, T_float), (T_float, T_int), (T_str, T_str)}
      then (None, st2)
      else (Some (ValueError (TypeMismatch left_type right_type)), st2))"
  by (auto simp: binop_pairs_def)

theorem visit_BinOp_accepted_pairs_witness:
  "visit [] (Num (IntNum 1)) [Map.empty] = (None, [Map.empty]) \<and>
   visit [] (Str ''s'') [Map.empty] = (None, [Map.empty]) \<and>
   get_value_type [Map.empty] (Num (IntNum 1)) = Inr T_int \<and>
   get_value_type [Map.empty] (Str ''s'') = Inr T_str \<and>
   visit [] (BinOp (Num (IntNum 1)) Add (Str ''s'')) [Map.empty]
     = (Some (ValueError (TypeMismatch T_int T_str)), [Map.empty])"
  using visit_BinOp_accepted_pairs
    [of "[]" "Num (IntNum 1)" "[Map.empty]" "[Map.empty]" "Str ''s''" "[Map.empty]" T_int T_str Add]
  by simp

text \<open>
  C7. The claim is that a binary expression with two \<open>Int\<close> operands is inferred \<open>Int\<close>.
  For \<^verbatim>\<open>1 + 2\<close> the inferred type is not \<open>Int\<close>.
\<close>

theorem get_value_type_int_plus_int_not_int:
  "get_value_type [Map.empty] (Num (IntNum 1)) = Inr T_int \<and>
   get_value_type [Map.empty] (Num (IntNum 2)) = Inr T_int \<and>
   get_value_type [Map.empty] (BinOp (Num (IntNum 1)) Add (Num (IntNum 2))) \<noteq> Inr T_int"
  by simp

text \<open>
  C7, as the code has it. A binary expression whose two operands both have type \<open>Int\<close> is
  inferred \<open>Float\<close>, as are the other pairs of numeric operand types, \<open>(Float, Float)\<close>,
  \<open>(Int, Float)\<close> and \<open>(Float, Int)\<close>.
\<close>

theorem get_value_type_numeric_operands_float:
  "get_value_type st left = Inr left_type \<Longrightarrow> get_value_type st right = Inr right_type \<Longrightarrow>
   left_type \<in> {T_int, T_float} \<Longrightarrow> right_type \<in> {T_int, T_float} \<Longrightarrow>
   get_value_type st (BinOp left op right) = Inr T_float"
  by auto

theorem get_value_type_numeric_operands_float_witness:
  "get_value_type [Map.empty(''n'' \<mapsto> \<lparr>name = ''n'', type = T_int\<rparr>)] (Name ''n'') = Inr T_int \<and>
   get_value_type [Map.empty(''n'' \<mapsto> \<lparr>name = ''n'', type = T_int\<rparr>)] (Num (IntNum 2)) = Inr T_int \<and>
   T_int \<in> {T_int, T_float} \<and>
   get_value_type [Map.empty(''n'' \<mapsto> \<lparr>name = ''n'', type = T_int\<rparr>)]
     (BinOp (Name ''n'') Mult (Num (IntNum 2))) = Inr T_float"
  using get_value_type_numeric_operands_float
    [of "[Map.empty(''n'' \<mapsto> \<lparr>name = ''n'', type = T_int\<rparr>)]" "Name ''n''" T_int
        "Num (IntNum 2)" T_int Mult]
  by simp

section \<open>Assignments\<close>

text \<open>
  C8. The claim is that an assignment to a single plain name always succeeds and that an
  assignment with several targets fails. \<^verbatim>\<open>x = y\<close> with \<open>y\<close> unbound fails, and
  \<^verbatim>\<open>a = b = 1\<close> is accepted.
\<close>

theorem visit_Assign_single_fails_multiple_succeeds:
  "visit [] (Assign [Name ''x''] (Name ''y'')) [Map.empty]
     = (Some (ValueError (UndefinedVariable ''y'')), [Map.empty]) \<and>
   visit [] (Assign [Name ''a'', Name ''b''] (Num (IntNum 1))) [Map.empty]
     = (None, [Map.empty(''a'' \<mapsto> \<lparr>name = ''a'', type = T_int\<rparr>,
                         ''b'' \<mapsto> \<lparr>name = ''b'', type = T_int\<rparr>)])"
  by (simp add: bind_symbol_def)

text \<open>
  C8, as the code has it. An assignment to a single plain name succeeds exactly when the
  type of the right-hand side can be inferred, and then rebinds the name in the current
  (last) scope to that type; when inference raises, the assignment fails with that error
  and binds nothing. A first target that is not a plain name fails with the
  unsupported-target diagnostic. Further targets are not refused as such: after a plain
  name is bound the remaining targets are handled in the same way.
\<close>

theorem visit_Assign_plain_name:
  "(get_value_type st v = Inr t \<and> st \<noteq> [] \<longrightarrow>
      visit bi (Assign [Name x] v) st =
        (None, butlast st @ [(last st)(x \<mapsto> \<lparr>name = x, type = t\<rparr>)])) \<and>
   (get_value_type st v = Inl e \<longrightarrow>
      visit bi (Assign (Name x # targets) v) st = (Some e, st)) \<and>
   (\<not> is_Name target \<longrightarrow>
      visit bi (Assign (target # targets) v) st = (Some (ValueError UnsupportedTarget), st)) \<and>
   (get_value_type st v = Inr t \<and> st \<noteq> [] \<longrightarrow>
      visit bi (Assign (Name x # targets) v) st =
        visit bi (Assign targets v) (butlast st @ [(last st)(x \<mapsto> \<lparr>name = x, type = t\<rparr>)]))"
  by (cases target) (simp_all add: bind_symbol_def)

theorem visit_Assign_plain_name_witness:
  "get_value_type [Map.empty] (Str ''s'') = Inr T_str \<and>
   visit [] (Assign [Name ''y''] (Str ''s'')) [Map.empty]
     = (None, [Map.empty(''y'' \<mapsto> \<lparr>name = ''y'', type = T_str\<rparr>)]) \<and>
   get_value_type [Map.empty] (Name ''w'') = Inl (ValueError (UndefinedVariable ''w'')) \<and>
   visit [] (Assign [Name ''y''] (Name ''w'')) [Map.empty]
     = (Some (ValueError (UndefinedVariable ''w'')), [Map.empty]) \<and>
   \<not> is_Name (Attribute (Name ''o'') ''f'') \<and>
   visit [] (Assign [Attribute (Name ''o'') ''f''] (Str ''s'')) [Map.empty]
     = (Some (ValueError UnsupportedTarget), [Map.empty])"
  using visit_Assign_plain_name
    [of "[Map.empty]" "Str ''s''" T_str "[]" "''y''" "TypeError UnknownNode" "[]"
        "Attribute (Name ''o'') ''f''"]
    visit_Assign_plain_name
    [of "[Map.empty]" "Name ''w''" T_str "[]" "''y''" "ValueError (UndefinedVariable ''w'')" "[]"
        "Attribute (Name ''o'') ''f''"]
  by simp

text \<open>
  C9. The claim is that for every assignment whose targets are a plain name followed by a
  target that is not a name, the handler binds the plain name and then raises the
  unsupported-target error. When the type of the right-hand side cannot be inferred, the
  handler raises that error at the first target and binds nothing.
\<close>

theorem visit_Assign_inference_error_binds_nothing:
  "visit [] (Assign [Name ''x'', Attribute (Name ''y'') ''a''] (Name ''z'')) [Map.empty]
     = (Some (ValueError (UndefinedVariable ''z'')), [Map.empty])"
  by simp

text \<open>
  C9, as the code has it. Assignment handling is not atomic on error: for an assignment
  whose right-hand side has an inferable type and whose targets are a plain name followed
  by a target that is not a name, the handler binds the plain name in the current scope
  and then raises the unsupported-target error, so the failed statement leaves the
  binding in the table.
\<close>

theorem visit_Assign_binds_before_raising:
  "get_value_type st v = Inr t \<Longrightarrow> st \<noteq> [] \<Longrightarrow> \<not> is_Name target \<Longrightarrow>
   visit bi (Assign (Name x # target # targets) v) st =
     (Some (ValueError UnsupportedTarget),
      butlast st @ [(last st)(x \<mapsto> \<lparr>name = x, type = t\<rparr>)])"
  by (cases target) (simp_all add: bind_symbol_def)

theorem visit_Assign_binds_before_raising_witness:
  "get_value_type [Map.empty] (Num (IntNum 5)) = Inr T_int \<and>
   [Map.empty :: scope] \<noteq> [] \<and> \<not> is_Name (Attribute (Name ''y'') ''a'') \<and>
   visit [] (Assign [Name ''x'', Attribute (Name ''y'') ''a''] (Num (IntNum 5))) [Map.empty]
     = (Some (ValueError UnsupportedTarget),
        [Map.empty(''x'' \<mapsto> \<lparr>name = ''x'', type = T_int\<rparr>)])"
  using visit_Assign_binds_before_raising
    [of "[Map.empty]" "Num (IntNum 5)" T_int "Attribute (Name ''y'') ''a''" "[]" "''x''" "[]"]
  by simp

section \<open>Programs that are approved\<close>




text \<open>
  The checker leaves no approved program out: a program it refuses is refused by the
  analyzer as well.
\<close>

lemma approved_accepted:
  "analyze_semantics bi tree = Approved \<Longrightarrow> accepted bi tree"
proof (rule ccontr)
  assume ok: "analyze_semantics bi tree = Approved" and "\<not> accepted bi tree"
  then have "check bi Map.empty tree = None" by (simp add: accepted_def)
  from check_complete(1) [OF this] ok show False
    by (cases "visit bi tree [Map.empty]") (auto simp: analyze_semantics_def)
qed

end
